theory Spec2Isabelle
  imports Main
begin

section \<open>resize\_image.py: a shallow embedding\<close>

text \<open>
  The script opens an image with Pillow, flattens modes RGBA, LA and P onto a white
  RGB canvas, resizes with the LANCZOS filter, derives an output path when none is
  given, saves (quality 95 for a .jpg/.jpeg path), prints a report, and turns every
  exception into exit status 1.

  Pillow, the operating system and the encoding of standard output are not part of the
  script. Their operations are the fields of a record \<open>pillow\<close> that every definition
  takes as its first argument, so each theorem holds for whatever these operations
  compute. Python's exceptions are values of \<open>exn\<close>; an operation that can raise returns
  \<open>exn + 'a\<close>.
\<close>

subsection \<open>Strings: \<open>str.lower\<close>, \<open>str.endswith\<close>, \<open>str.rfind\<close>, \<open>os.path.splitext\<close>\<close>

text \<open>
  Paths are \<open>string\<close>s of 8-bit characters; \<open>lower\<close> maps A-Z to a-z and leaves every
  other character alone, which is what \<open>str.lower\<close> does on ASCII text.
\<close>

definition lower_char :: "char \<Rightarrow> char" where
  "lower_char c =
     (case map_of (zip ''ABCDEFGHIJKLMNOPQRSTUVWXYZ'' ''abcdefghijklmnopqrstuvwxyz'') c of
        Some l \<Rightarrow> l
      | None \<Rightarrow> c)"

definition lower :: "string \<Rightarrow> string" where
  "lower s = map lower_char s"

definition endswith :: "string \<Rightarrow> string \<Rightarrow> bool" where
  "endswith s suffix =
     (length suffix \<le> length s \<and> drop (length s - length suffix) s = suffix)"

text \<open>\<open>p.rfind(c)\<close>: the highest index of \<open>c\<close> in \<open>p\<close>, or -1.\<close>

primrec rfind_from :: "string \<Rightarrow> char \<Rightarrow> int \<Rightarrow> int \<Rightarrow> int" where
  "rfind_from [] c i found = found"
| "rfind_from (x # xs) c i found = rfind_from xs c (i + 1) (if x = c then i else found)"

definition rfind :: "string \<Rightarrow> char \<Rightarrow> int" where
  "rfind p c = rfind_from p c 0 (- 1)"

text \<open>
  \<open>os.path.splitext\<close> of the POSIX path module (\<open>genericpath._splitext\<close> with
  \<open>sep = '/'\<close>, no \<open>altsep\<close>, \<open>extsep = '.'\<close>):
  \<^verbatim>\<open>
    sepIndex = p.rfind(sep)
    dotIndex = p.rfind(extsep)
    if dotIndex > sepIndex:
        filenameIndex = sepIndex + 1
        while filenameIndex < dotIndex:
            if p[filenameIndex:filenameIndex+1] != extsep:
                return p[:dotIndex], p[dotIndex:]
            filenameIndex += 1
    return p, p[:0]
  \<close>
  \<open>skip_leading_dots\<close> is the while loop: it answers whether the loop returns the split.
\<close>

function skip_leading_dots :: "string \<Rightarrow> int \<Rightarrow> int \<Rightarrow> bool" where
  "skip_leading_dots p filenameIndex dotIndex =
     (if filenameIndex < dotIndex then
        (if p ! nat filenameIndex \<noteq> CHR ''.'' then True
         else skip_leading_dots p (filenameIndex + 1) dotIndex)
      else False)"
  by pat_completeness auto
termination
  by (relation "measure (\<lambda>(p, filenameIndex, dotIndex). nat (dotIndex - filenameIndex))") auto

declare skip_leading_dots.simps [simp del]

definition splitext :: "string \<Rightarrow> string \<times> string" where
  "splitext p =
     (let sepIndex = rfind p CHR ''/'';
          dotIndex = rfind p CHR ''.''
      in if dotIndex > sepIndex \<and> skip_leading_dots p (sepIndex + 1) dotIndex
         then (take (nat dotIndex) p, drop (nat dotIndex) p)
         else (p, []))"

subsection \<open>Exceptions, the library interface, the world\<close>

text \<open>
  The script tells two kinds of exception apart: \<open>FileNotFoundError\<close>, and any other
  subclass of \<open>Exception\<close>, of which only \<open>str(e)\<close> is used.
\<close>

datatype exn = FileNotFoundError | Exception string

datatype resampling = NEAREST | BOX | BILINEAR | HAMMING | BICUBIC | LANCZOS

text \<open>
  What the script prints, one constructor per \<open>print\<close> call. \<open>Text\<close> is a line of
  ASCII characters, printed as it stands. Each other line starts with a character
  outside ASCII (a check mark, a folder, a chart, a cross) and the sizes are floats
  formatted to one decimal; such a line is kept as the data it is formatted from (sizes
  in bytes, before the division by 1024).
\<close>

datatype line =
    Text string
  | Success_resized int int
  | Saved_as string
  | Original_size int
  | New_size int
  | Error_not_found string
  | Error_resizing string

text \<open>
  The operations the script calls. \<open>'img\<close> is Pillow's image object, \<open>'fs\<close> the state
  of the file system. \<open>paste\<close> mutates its receiver in the source; here it returns the
  receiver after the call. \<open>save\<close> returns the file system after the call also when it
  raises, since a failed save may leave a partial file. The last argument of \<open>save\<close> is
  the value of the keyword argument \<open>quality\<close>, which line 41 passes on every call:
  \<open>Some n\<close> is the integer \<open>n\<close>, \<open>None\<close> is Python's \<open>None\<close> passed as \<open>quality=None\<close>, not
  an omitted keyword. \<open>stdout_encode_error l\<close> is \<open>None\<close> when the encoding of standard
  output can encode the line \<open>l\<close>, and otherwise \<open>str(e)\<close> of the \<open>UnicodeEncodeError\<close>
  that printing it raises.
\<close>

record ('img, 'fs) pillow =
  pil_open :: "'fs \<Rightarrow> string \<Rightarrow> exn + 'img"
  pil_mode :: "'img \<Rightarrow> string"
  pil_size :: "'img \<Rightarrow> int \<times> int"
  pil_new :: "string \<Rightarrow> int \<times> int \<Rightarrow> int \<times> int \<times> int \<Rightarrow> exn + 'img"
  pil_convert :: "'img \<Rightarrow> string \<Rightarrow> exn + 'img"
  pil_split :: "'img \<Rightarrow> exn + 'img list"
  pil_paste :: "'img \<Rightarrow> 'img \<Rightarrow> 'img option \<Rightarrow> exn + 'img"
  pil_resize :: "'img \<Rightarrow> int \<times> int \<Rightarrow> resampling \<Rightarrow> exn + 'img"
  pil_save :: "'fs \<Rightarrow> 'img \<Rightarrow> string \<Rightarrow> int option \<Rightarrow> (exn + unit) \<times> 'fs"
  os_getsize :: "'fs \<Rightarrow> string \<Rightarrow> exn + int"
  stdout_encode_error :: "line \<Rightarrow> string option"

record 'fs world =
  fs :: 'fs
  stdout :: "line list"

text \<open>
  \<open>print\<close> appends the line to standard output, or raises \<open>UnicodeEncodeError\<close> (a
  subclass of \<open>Exception\<close>) when the encoding of standard output cannot encode it. An
  ASCII line is always encodable. A standard output that cannot be written to at all is
  not modelled.
\<close>

fun unencodable :: "('img, 'fs) pillow \<Rightarrow> line \<Rightarrow> string option" where
  "unencodable L (Text s) = None"
| "unencodable L (Success_resized width height) =
     stdout_encode_error L (Success_resized width height)"
| "unencodable L (Saved_as p) = stdout_encode_error L (Saved_as p)"
| "unencodable L (Original_size n) = stdout_encode_error L (Original_size n)"
| "unencodable L (New_size n) = stdout_encode_error L (New_size n)"
| "unencodable L (Error_not_found p) = stdout_encode_error L (Error_not_found p)"
| "unencodable L (Error_resizing msg) = stdout_encode_error L (Error_resizing msg)"

definition print :: "('img, 'fs) pillow \<Rightarrow> line \<Rightarrow> 'fs world \<Rightarrow> exn + 'fs world" where
  "print L l w =
     (case unencodable L l of
        None \<Rightarrow> Inr (w\<lparr>stdout := stdout w @ [l]\<rparr>)
      | Some msg \<Rightarrow> Inl (Exception msg))"

text \<open>
  How a call ends: it returns, \<open>sys.exit(n)\<close> ends the process with status \<open>n\<close>, or an
  exception leaves the call. An exception that leaves \<open>main\<close> ends the process with a
  traceback and status 1.
\<close>

datatype outcome = Returned | SysExit int | Raised exn

fun exit_status :: "outcome \<Rightarrow> int" where
  "exit_status Returned = 0"
| "exit_status (SysExit n) = n"
| "exit_status (Raised e) = 1"

subsection \<open>\<open>resize_image\<close>\<close>

text \<open>
  Lines 24-30, the mode normalization:
  \<^verbatim>\<open>
    if img.mode in ('RGBA', 'LA', 'P'):
        background = Image.new('RGB', img.size, (255, 255, 255))
        if img.mode == 'P':
            img = img.convert('RGBA')
        background.paste(img, mask=img.split()[-1] if img.mode == 'RGBA' else None)
        img = background
  \<close>
  \<open>paste_mask\<close> is the \<open>mask\<close> argument; \<open>[-1]\<close> of an empty tuple raises IndexError.
\<close>

definition paste_mask :: "('img, 'fs) pillow \<Rightarrow> 'img \<Rightarrow> exn + 'img option" where
  "paste_mask L img =
     (if pil_mode L img = ''RGBA'' then
        (case pil_split L img of
           Inl e \<Rightarrow> Inl e
         | Inr bands \<Rightarrow>
             if bands = [] then Inl (Exception ''tuple index out of range'')
             else Inr (Some (last bands)))
      else Inr None)"

definition normalize_mode :: "('img, 'fs) pillow \<Rightarrow> 'img \<Rightarrow> exn + 'img" where
  "normalize_mode L img =
     (if pil_mode L img \<in> set [''RGBA'', ''LA'', ''P''] then
        (case pil_new L ''RGB'' (pil_size L img) (255, 255, 255) of
           Inl e \<Rightarrow> Inl e
         | Inr background \<Rightarrow>
             (case (if pil_mode L img = ''P'' then pil_convert L img ''RGBA'' else Inr img) of
                Inl e \<Rightarrow> Inl e
              | Inr img1 \<Rightarrow>
                  (case paste_mask L img1 of
                     Inl e \<Rightarrow> Inl e
                   | Inr paste_mask' \<Rightarrow> pil_paste L background img1 paste_mask')))
      else Inr img)"

text \<open>
  Lines 36-38: \<open>base, ext = os.path.splitext(input_path)\<close>,
  \<open>output_path = f"{base}_512x512{ext}"\<close>.
\<close>

definition derive_output_path :: "string \<Rightarrow> string" where
  "derive_output_path input_path =
     (case splitext input_path of (base, ext) \<Rightarrow> base @ ''_512x512'' @ ext)"

text \<open>
  Line 41, the \<open>quality\<close> argument of \<open>save\<close>:
  \<open>95 if output_path.lower().endswith('.jpg') or output_path.lower().endswith('.jpeg') else None\<close>.
\<close>

definition save_quality :: "string \<Rightarrow> int option" where
  "save_quality output_path =
     (if endswith (lower output_path) ''.jpg'' \<or> endswith (lower output_path) ''.jpeg''
      then Some 95 else None)"

text \<open>
  Lines 21-41 up to the call of \<open>save\<close>: the image, the path and the quality that
  \<open>img_resized.save\<close> is called with, or the exception raised before the call.
\<close>

definition save_arguments ::
  "('img, 'fs) pillow \<Rightarrow> string \<Rightarrow> string option \<Rightarrow> int \<times> int \<Rightarrow> 'fs world \<Rightarrow>
     exn + ('img \<times> string \<times> int option)" where
  "save_arguments L input_path output_path sz w =
     (case pil_open L (fs w) input_path of
        Inl e \<Rightarrow> Inl e
      | Inr img \<Rightarrow>
          (case normalize_mode L img of
             Inl e \<Rightarrow> Inl e
           | Inr img' \<Rightarrow>
               (case pil_resize L img' sz LANCZOS of
                  Inl e \<Rightarrow> Inl e
                | Inr img_resized \<Rightarrow>
                    (let output_path' =
                       (case output_path of
                          None \<Rightarrow> derive_output_path input_path
                        | Some p \<Rightarrow> p)
                     in Inr (img_resized, output_path', save_quality output_path')))))"

text \<open>
  Lines 43-50, after a successful save: two lines are printed, both sizes are read,
  two more lines are printed.
\<close>

definition report ::
  "('img, 'fs) pillow \<Rightarrow> string \<Rightarrow> string \<Rightarrow> int \<times> int \<Rightarrow> 'fs world \<Rightarrow>
     (exn + unit) \<times> 'fs world" where
  "report L input_path output_path sz w =
     (case print L (Success_resized (fst sz) (snd sz)) w of
        Inl e \<Rightarrow> (Inl e, w)
      | Inr w1 \<Rightarrow>
     (case print L (Saved_as output_path) w1 of
        Inl e \<Rightarrow> (Inl e, w1)
      | Inr w2 \<Rightarrow>
     (case os_getsize L (fs w2) input_path of
        Inl e \<Rightarrow> (Inl e, w2)
      | Inr original_size \<Rightarrow>
     (case os_getsize L (fs w2) output_path of
        Inl e \<Rightarrow> (Inl e, w2)
      | Inr new_size \<Rightarrow>
     (case print L (Original_size original_size) w2 of
        Inl e \<Rightarrow> (Inl e, w2)
      | Inr w3 \<Rightarrow>
     (case print L (New_size new_size) w3 of
        Inl e \<Rightarrow> (Inl e, w3)
      | Inr w4 \<Rightarrow> (Inr (), w4)))))))"

text \<open>Lines 19-50, the body of the \<open>try\<close>.\<close>

definition try_body ::
  "('img, 'fs) pillow \<Rightarrow> string \<Rightarrow> string option \<Rightarrow> int \<times> int \<Rightarrow> 'fs world \<Rightarrow>
     (exn + unit) \<times> 'fs world" where
  "try_body L input_path output_path sz w =
     (case save_arguments L input_path output_path sz w of
        Inl e \<Rightarrow> (Inl e, w)
      | Inr (img_resized, output_path', quality) \<Rightarrow>
          (case pil_save L (fs w) img_resized output_path' quality of
             (Inl e, fs') \<Rightarrow> (Inl e, w\<lparr>fs := fs'\<rparr>)
           | (Inr u, fs') \<Rightarrow> report L input_path output_path' sz (w\<lparr>fs := fs'\<rparr>)))"

text \<open>
  Lines 10-57: the \<open>try\<close> with its two handlers. A handler prints one line and calls
  \<open>sys.exit(1)\<close>; when that \<open>print\<close> raises, the exception leaves \<open>resize_image\<close>.
\<close>

definition handler :: "('img, 'fs) pillow \<Rightarrow> line \<Rightarrow> 'fs world \<Rightarrow> outcome \<times> 'fs world" where
  "handler L l w = (case print L l w of Inl e \<Rightarrow> (Raised e, w) | Inr w' \<Rightarrow> (SysExit 1, w'))"

definition resize_image ::
  "('img, 'fs) pillow \<Rightarrow> string \<Rightarrow> string option \<Rightarrow> int \<times> int \<Rightarrow> 'fs world \<Rightarrow>
     outcome \<times> 'fs world" where
  "resize_image L input_path output_path sz w =
     (case try_body L input_path output_path sz w of
        (Inr u, w') \<Rightarrow> (Returned, w')
      | (Inl FileNotFoundError, w') \<Rightarrow> handler L (Error_not_found input_path) w'
      | (Inl (Exception msg), w') \<Rightarrow> handler L (Error_resizing msg) w')"

subsection \<open>\<open>main\<close>\<close>

definition usage :: "line list" where
  "usage =
     [Text ''Usage: python resize_image.py <input_image> [output_image]'',
      Text ''Example: python resize_image.py emoji.png'',
      Text ''         python resize_image.py emoji.png emoji_resized.png'']"

text \<open>The \<open>print\<close> calls of lines 61-63, one after the other.\<close>

fun print_lines ::
  "('img, 'fs) pillow \<Rightarrow> line list \<Rightarrow> 'fs world \<Rightarrow> (exn + unit) \<times> 'fs world" where
  "print_lines L [] w = (Inr (), w)"
| "print_lines L (l # ls) w =
     (case print L l w of Inl e \<Rightarrow> (Inl e, w) | Inr w' \<Rightarrow> print_lines L ls w')"

text \<open>Lines 59-69; \<open>argv\<close> is \<open>sys.argv\<close>, the program name first.\<close>

definition main :: "('img, 'fs) pillow \<Rightarrow> string list \<Rightarrow> 'fs world \<Rightarrow> outcome \<times> 'fs world" where
  "main L argv w =
     (if length argv < 2 then
        (case print_lines L usage w of
           (Inl e, w') \<Rightarrow> (Raised e, w')
         | (Inr u, w') \<Rightarrow> (SysExit 1, w'))
      else resize_image L (argv ! 1) (if length argv > 2 then Some (argv ! 2) else None)
             (512, 512) w)"

subsection \<open>A small executable library, for concrete runs\<close>

text \<open>
  An instance of the interface on which the definitions can be run. An image is its
  mode, its size, and the band values of the pixel at each position; a file system is
  an association list from paths to directories and image files. \<open>sample_paste\<close>
  without a mask overwrites the canvas with the source's colour bands, with a mask it
  blends linearly; \<open>sample_resize\<close> is not Pillow's resampling: it reads the nearest
  source pixel whatever the filter. \<open>sample_save\<close> follows \<open>Image.save\<close> for two formats:
  the format is read off the lowercased extension (PNG for \<open>.png\<close>; JPEG for \<open>.jpg\<close>,
  \<open>.jpeg\<close>, \<open>.jpe\<close>, \<open>.jfif\<close>; any other extension is unknown), the file is opened for
  writing (\<open>FileNotFoundError\<close> when the directory of the path is missing), and the
  encoder refuses a mode it cannot write and, for JPEG, a quality that is not an
  integer. Standard output encodes every line.
\<close>

record image =
  im_mode :: string
  im_size :: "int \<times> int"
  im_palette :: "nat list list"
  im_pixel :: "int \<Rightarrow> int \<Rightarrow> nat list"

datatype entry = Directory | File image

type_synonym files = "(string \<times> entry) list"

definition sample_open :: "files \<Rightarrow> string \<Rightarrow> exn + image" where
  "sample_open fsys p =
     (case map_of fsys p of
        None \<Rightarrow> Inl FileNotFoundError
      | Some Directory \<Rightarrow> Inl (Exception ''Is a directory'')
      | Some (File im) \<Rightarrow> Inr im)"

definition sample_new :: "string \<Rightarrow> int \<times> int \<Rightarrow> int \<times> int \<times> int \<Rightarrow> exn + image" where
  "sample_new m sz color =
     (case color of (r, g, b) \<Rightarrow>
        Inr \<lparr>im_mode = m, im_size = sz, im_palette = [],
             im_pixel = (\<lambda>x y. [nat r, nat g, nat b])\<rparr>)"

definition sample_convert :: "image \<Rightarrow> string \<Rightarrow> exn + image" where
  "sample_convert im m =
     (if im_mode im = ''P'' \<and> m = ''RGBA'' then
        Inr (im\<lparr>im_mode := ''RGBA'', im_palette := [],
                im_pixel := (\<lambda>x y. case im_pixel im x y of
                                [] \<Rightarrow> [0, 0, 0, 255]
                              | i # rest \<Rightarrow>
                                  if i < length (im_palette im) then im_palette im ! i
                                  else [0, 0, 0, 255])\<rparr>)
      else Inl (Exception ''conversion not supported''))"

definition sample_split :: "image \<Rightarrow> exn + image list" where
  "sample_split im =
     Inr (map (\<lambda>k. \<lparr>im_mode = ''L'', im_size = im_size im, im_palette = [],
                      im_pixel = (\<lambda>x y. [im_pixel im x y ! k])\<rparr>)
            [0..<length (im_mode im)])"

fun colour_bands :: "nat list \<Rightarrow> nat list" where
  "colour_bands [l] = [l, l, l]"
| "colour_bands [l, a] = [l, l, l]"
| "colour_bands (r # g # b # rest) = [r, g, b]"
| "colour_bands [] = [0, 0, 0]"

definition blend :: "nat \<Rightarrow> nat list \<Rightarrow> nat list \<Rightarrow> nat list" where
  "blend a canvas src = map2 (\<lambda>u v. (u * (255 - a) + v * a) div 255) canvas src"

definition sample_paste :: "image \<Rightarrow> image \<Rightarrow> image option \<Rightarrow> exn + image" where
  "sample_paste background im m =
     (if im_size im \<noteq> im_size background then Inl (Exception ''images do not match'')
      else
        Inr (background\<lparr>im_pixel :=
          (\<lambda>x y. case m of
                    None \<Rightarrow> colour_bands (im_pixel im x y)
                  | Some alpha \<Rightarrow>
                      blend (hd (im_pixel alpha x y)) (im_pixel background x y)
                        (colour_bands (im_pixel im x y)))\<rparr>))"

definition sample_resize :: "image \<Rightarrow> int \<times> int \<Rightarrow> resampling \<Rightarrow> exn + image" where
  "sample_resize im sz f =
     (if fst sz \<le> 0 \<or> snd sz \<le> 0 then Inl (Exception ''height and width must be > 0'')
      else
        Inr (im\<lparr>im_size := sz,
                im_pixel := (\<lambda>x y. im_pixel im (x * fst (im_size im) div fst sz)
                                               (y * snd (im_size im) div snd sz))\<rparr>))"

definition dirname :: "string \<Rightarrow> string" where
  "dirname p = take (nat (rfind p CHR ''/'')) p"

datatype image_format = PNG | JPEG

definition format_of :: "string \<Rightarrow> image_format option" where
  "format_of p =
     (let ext = lower (snd (splitext p))
      in if ext = ''.png'' then Some PNG
         else if ext \<in> set [''.jpg'', ''.jpeg'', ''.jpe'', ''.jfif''] then Some JPEG
         else None)"

fun writable_modes :: "image_format \<Rightarrow> string list" where
  "writable_modes PNG = [''1'', ''L'', ''LA'', ''I'', ''P'', ''RGB'', ''RGBA'']"
| "writable_modes JPEG = [''1'', ''L'', ''RGB'', ''RGBX'', ''CMYK'', ''YCbCr'']"

fun format_name :: "image_format \<Rightarrow> string" where
  "format_name PNG = ''PNG''"
| "format_name JPEG = ''JPEG''"

definition encode ::
  "files \<Rightarrow> image \<Rightarrow> string \<Rightarrow> image_format \<Rightarrow> int option \<Rightarrow> (exn + unit) \<times> files" where
  "encode fsys im p fmt quality =
     (if im_mode im \<notin> set (writable_modes fmt) then
        (Inl (Exception (''cannot write mode '' @ im_mode im @ '' as '' @ format_name fmt)), fsys)
      else if fmt = JPEG \<and> quality = None then
        (Inl (Exception ''Invalid quality setting''), fsys)
      else (Inr (), (p, File im) # fsys))"

definition sample_save ::
  "files \<Rightarrow> image \<Rightarrow> string \<Rightarrow> int option \<Rightarrow> (exn + unit) \<times> files" where
  "sample_save fsys im p quality =
     (case format_of p of
        None \<Rightarrow> (Inl (Exception ''unknown file extension''), fsys)
      | Some fmt \<Rightarrow>
          if dirname p = [] then encode fsys im p fmt quality
          else
            (case map_of fsys (dirname p) of
               Some Directory \<Rightarrow> encode fsys im p fmt quality
             | Some (File other) \<Rightarrow> (Inl (Exception ''Not a directory''), fsys)
             | None \<Rightarrow> (Inl FileNotFoundError, fsys)))"

definition sample_getsize :: "files \<Rightarrow> string \<Rightarrow> exn + int" where
  "sample_getsize fsys p =
     (case map_of fsys p of
        None \<Rightarrow> Inl FileNotFoundError
      | Some Directory \<Rightarrow> Inr 4096
      | Some (File im) \<Rightarrow> Inr (fst (im_size im) * snd (im_size im) * int (length (im_mode im))))"

definition sample_lib :: "(image, files) pillow" where
  "sample_lib =
     \<lparr>pil_open = sample_open, pil_mode = im_mode, pil_size = im_size, pil_new = sample_new,
      pil_convert = sample_convert, pil_split = sample_split, pil_paste = sample_paste,
      pil_resize = sample_resize, pil_save = sample_save, os_getsize = sample_getsize,
      stdout_encode_error = (\<lambda>l. None)\<rparr>"

text \<open>The same library with a standard output that encodes ASCII only.\<close>

definition ascii_stdout_lib :: "(image, files) pillow" where
  "ascii_stdout_lib =
     sample_lib\<lparr>stdout_encode_error := (\<lambda>l. Some ''codec cannot encode character'')\<rparr>"

text \<open>
  Three images: \<open>emoji\<close> is 2 by 2, truecolor with alpha, red, opaque in its left column
  and transparent in its right one; \<open>shade\<close> is 1 by 1, grayscale with alpha, one black
  and fully transparent pixel; \<open>poster\<close> is 1 by 1 in mode CMYK, as a JPEG made for print
  opens. The sample file system holds the three in the working directory, and a
  directory \<open>out\<close>.
\<close>

definition emoji :: image where
  "emoji = \<lparr>im_mode = ''RGBA'', im_size = (2, 2), im_palette = [],
            im_pixel = (\<lambda>x y. [255, 0, 0, if x = 0 then 255 else 0])\<rparr>"

definition shade :: image where
  "shade = \<lparr>im_mode = ''LA'', im_size = (1, 1), im_palette = [],
            im_pixel = (\<lambda>x y. [0, 0])\<rparr>"

definition poster :: image where
  "poster = \<lparr>im_mode = ''CMYK'', im_size = (1, 1), im_palette = [],
             im_pixel = (\<lambda>x y. [0, 255, 255, 0])\<rparr>"

definition sample_world :: "files world" where
  "sample_world =
     \<lparr>fs = [(''emoji.png'', File emoji), (''shade.png'', File shade),
            (''poster.jpg'', File poster), (''out'', Directory)],
      stdout = []\<rparr>"

subsection \<open>The extension of a file name, in words\<close>

text \<open>
  \<open>stem_and_extension p stem ext\<close>: the path \<open>p\<close> is \<open>stem\<close> followed by \<open>ext\<close>, where \<open>ext\<close>
  starts at the last dot of the last path component (a dot, then characters that are
  neither a dot nor a slash) and the last path component has a character other than a
  dot before that dot. A name made of leading dots and letters only, as \<open>.bashrc\<close>, has
  no extension. This is written from what an extension is, not from \<open>splitext\<close>, and
  the derived path is compared with it.
\<close>

definition stem_and_extension :: "string \<Rightarrow> string \<Rightarrow> string \<Rightarrow> bool" where
  "stem_and_extension p stem ext \<longleftrightarrow>
     p = stem @ ext \<and>
     (\<exists>e. ext = CHR ''.'' # e \<and> CHR ''.'' \<notin> set e \<and> CHR ''/'' \<notin> set e) \<and>
     (\<exists>before c after. stem = before @ c # after \<and> c \<noteq> CHR ''.'' \<and> c \<noteq> CHR ''/'' \<and>
        CHR ''/'' \<notin> set after)"

section \<open>Properties\<close>

subsection \<open>Facts about the string functions\<close>

lemma rfind_from_cases:
  "found < i \<Longrightarrow> rfind_from xs c i found = found \<or>
     (i \<le> rfind_from xs c i found \<and> rfind_from xs c i found < i + int (length xs) \<and>
      xs ! nat (rfind_from xs c i found - i) = c)"
proof (induction xs arbitrary: i found)
  case Nil
  then show ?case by simp
next
  case (Cons x xs)
  define f where "f = (if x = c then i else found)"
  define r where "r = rfind_from xs c (i + 1) f"
  have res: "rfind_from (x # xs) c i found = r" by (simp add: r_def f_def)
  have "f < i + 1" using Cons.prems by (simp add: f_def)
  from Cons.IH [OF this]
  consider "r = f" | "i + 1 \<le> r" "r < i + 1 + int (length xs)" "xs ! nat (r - (i + 1)) = c"
    unfolding r_def by blast
  then show ?case
  proof cases
    case 1
    then show ?thesis unfolding res by (auto simp: f_def)
  next
    case 2
    have "nat (r - i) = Suc (nat (r - (i + 1)))" using 2(1) by simp
    with 2 show ?thesis unfolding res by simp
  qed
qed

lemma rfind_from_last:
  "found < i \<Longrightarrow> c \<notin> set (drop (nat (rfind_from xs c i found + 1 - i)) xs)"
proof (induction xs arbitrary: i found)
  case Nil
  then show ?case by simp
next
  case (Cons x xs)
  define f where "f = (if x = c then i else found)"
  define r where "r = rfind_from xs c (i + 1) f"
  have res: "rfind_from (x # xs) c i found = r" by (simp add: r_def f_def)
  have flt: "f < i + 1" using Cons.prems by (simp add: f_def)
  have ih: "c \<notin> set (drop (nat (r - i)) xs)"
    using Cons.IH [OF flt] by (simp add: r_def)
  have cases: "r = f \<or> i + 1 \<le> r"
    using rfind_from_cases [OF flt, of xs c] by (auto simp: r_def)
  show ?case
  proof (cases "i \<le> r")
    case True
    then have "nat (r + 1 - i) = Suc (nat (r - i))" by simp
    then show ?thesis unfolding res using ih by simp
  next
    case False
    with cases have rf: "r = f" by simp
    with False have "x \<noteq> c" by (auto simp: f_def)
    moreover have "c \<notin> set xs" using ih False by simp
    ultimately show ?thesis unfolding res using False by simp
  qed
qed

lemma rfind_range: "- 1 \<le> rfind p c \<and> rfind p c < int (length p)"
  using rfind_from_cases [of "- 1" 0 p c] by (auto simp: rfind_def)

lemma rfind_nth: "0 \<le> rfind p c \<Longrightarrow> p ! nat (rfind p c) = c"
  using rfind_from_cases [of "- 1" 0 p c] by (auto simp: rfind_def)

lemma rfind_last: "c \<notin> set (drop (nat (rfind p c + 1)) p)"
  using rfind_from_last [of "- 1" 0 c p] by (simp add: rfind_def)

lemma splitext_append: "splitext p = (base, ext) \<Longrightarrow> base @ ext = p"
  by (auto simp: splitext_def Let_def split: if_splits)

lemma splitext_ext:
  assumes "splitext p = (base, ext)"
  shows "ext = [] \<or> (hd ext = CHR ''.'' \<and> CHR ''.'' \<notin> set (tl ext) \<and> CHR ''/'' \<notin> set ext)"
proof (cases "rfind p CHR ''.'' > rfind p CHR ''/'' \<and>
    skip_leading_dots p (rfind p CHR ''/'' + 1) (rfind p CHR ''.'')")
  case False
  with assms show ?thesis by (auto simp: splitext_def Let_def)
next
  case True
  define d where "d = rfind p CHR ''.''"
  define s where "s = rfind p CHR ''/''"
  from True have sd: "s < d" by (simp add: d_def s_def)
  have s0: "- 1 \<le> s" using rfind_range [of p "CHR ''/''"] by (simp add: s_def)
  have d0: "0 \<le> d" using sd s0 by simp
  have dlen: "nat d < length p" using rfind_range [of p "CHR ''.''"] d0 by (simp add: d_def)
  have ext: "ext = drop (nat d) p" using assms True by (simp add: splitext_def Let_def d_def)
  have hd: "hd ext = CHR ''.''"
    using rfind_nth [of p "CHR ''.''"] d0 dlen by (simp add: ext d_def hd_drop_conv_nth)
  have tl: "CHR ''.'' \<notin> set (tl ext)"
  proof -
    have "tl ext = drop (nat (d + 1)) p" using d0 by (simp add: ext drop_Suc nat_add_distrib tl_drop)
    then show ?thesis using rfind_last [of "CHR ''.''" p] by (simp add: d_def)
  qed
  have sl: "CHR ''/'' \<notin> set ext"
  proof -
    have "nat (s + 1) \<le> nat d" using sd by simp
    then have "set (drop (nat d) p) \<subseteq> set (drop (nat (s + 1)) p)"
      by (rule set_drop_subset_set_drop)
    then show ?thesis using rfind_last [of "CHR ''/''" p] by (auto simp: ext s_def)
  qed
  from hd tl sl show ?thesis by simp
qed

lemma lower_length: "length (lower s) = length s"
  by (simp add: lower_def)

lemma endswith_lower: "endswith s suffix \<Longrightarrow> endswith (lower s) (lower suffix)"
  by (auto simp: endswith_def lower_def drop_map)

lemma lower_jpg: "lower ''.jpg'' = ''.jpg''" "lower ''.jpeg'' = ''.jpeg''"
  by (simp_all add: lower_def lower_char_def)

lemma nth_in_set_drop: "k \<le> i \<Longrightarrow> i < length p \<Longrightarrow> p ! i \<in> set (drop k p)"
proof -
  assume "k \<le> i" "i < length p"
  then have "i - k < length (drop k p)" "drop k p ! (i - k) = p ! i" by simp_all
  then show ?thesis by (metis nth_mem)
qed

lemma rfind_unique:
  assumes "i < length p" "p ! i = c" "c \<notin> set (drop (Suc i) p)"
  shows "rfind p c = int i"
proof -
  define r where "r = rfind p c"
  have range: "- 1 \<le> r" "r < int (length p)" using rfind_range [of p c] by (simp_all add: r_def)
  have "\<not> r < int i"
  proof
    assume "r < int i"
    then have "nat (r + 1) \<le> i" using range by simp
    then have "p ! i \<in> set (drop (nat (r + 1)) p)"
      using assms(1) by (rule nth_in_set_drop)
    then show False using rfind_last [of c p] assms(2) by (simp add: r_def)
  qed
  moreover have "\<not> int i < r"
  proof
    assume gt: "int i < r"
    then have "0 \<le> r" by simp
    then have "p ! nat r = c" using rfind_nth [of p c] by (simp add: r_def)
    moreover have "Suc i \<le> nat r" "nat r < length p" using gt range by simp_all
    ultimately have "c \<in> set (drop (Suc i) p)" using nth_in_set_drop by metis
    then show False using assms(3) by simp
  qed
  ultimately show ?thesis by (simp add: r_def)
qed

lemma rfind_less:
  assumes "c \<notin> set (drop k p)"
  shows "rfind p c < int k"
proof (rule ccontr)
  assume "\<not> rfind p c < int k"
  then have ge: "int k \<le> rfind p c" by simp
  then have "0 \<le> rfind p c" by simp
  then have "p ! nat (rfind p c) = c" by (rule rfind_nth)
  moreover have "k \<le> nat (rfind p c)" "nat (rfind p c) < length p"
    using ge rfind_range [of p c] by simp_all
  ultimately have "c \<in> set (drop k p)" using nth_in_set_drop by metis
  then show False using assms by simp
qed

lemma skip_leading_dots_iff:
  "0 \<le> i \<Longrightarrow>
     skip_leading_dots p i d \<longleftrightarrow> (\<exists>j. nat i \<le> j \<and> int j < d \<and> p ! j \<noteq> CHR ''.'')"
proof (induction p i d rule: skip_leading_dots.induct)
  case (1 p i d)
  show ?case
  proof (cases "i < d")
    case False
    then show ?thesis using "1.prems" by (subst skip_leading_dots.simps) auto
  next
    case True
    show ?thesis
    proof (cases "p ! nat i \<noteq> CHR ''.''")
      case nd: True
      have "\<exists>j. nat i \<le> j \<and> int j < d \<and> p ! j \<noteq> CHR ''.''"
        using True nd "1.prems" by (intro exI [of _ "nat i"]) simp
      then show ?thesis using True nd by (subst skip_leading_dots.simps) simp
    next
      case dot: False
      have ih: "skip_leading_dots p (i + 1) d \<longleftrightarrow>
          (\<exists>j. nat (i + 1) \<le> j \<and> int j < d \<and> p ! j \<noteq> CHR ''.'')"
        using "1.IH" [OF True] dot "1.prems" by simp
      have "(\<exists>j. nat (i + 1) \<le> j \<and> int j < d \<and> p ! j \<noteq> CHR ''.'') \<longleftrightarrow>
          (\<exists>j. nat i \<le> j \<and> int j < d \<and> p ! j \<noteq> CHR ''.'')"
      proof
        assume "\<exists>j. nat (i + 1) \<le> j \<and> int j < d \<and> p ! j \<noteq> CHR ''.''"
        then obtain j where "nat (i + 1) \<le> j" "int j < d" "p ! j \<noteq> CHR ''.''" by blast
        then show "\<exists>j. nat i \<le> j \<and> int j < d \<and> p ! j \<noteq> CHR ''.''"
          by (intro exI [of _ j]) simp
      next
        assume "\<exists>j. nat i \<le> j \<and> int j < d \<and> p ! j \<noteq> CHR ''.''"
        then obtain j where j: "nat i \<le> j" "int j < d" "p ! j \<noteq> CHR ''.''" by blast
        with dot have "j \<noteq> nat i" by auto
        with j "1.prems" have "nat (i + 1) \<le> j" by simp
        with j show "\<exists>j. nat (i + 1) \<le> j \<and> int j < d \<and> p ! j \<noteq> CHR ''.''" by blast
      qed
      then show ?thesis using True dot ih by (subst skip_leading_dots.simps) simp
    qed
  qed
qed

lemma splitext_of_extension:
  assumes "stem_and_extension p stem ext"
  shows "splitext p = (stem, ext)"
proof -
  from assms obtain e before c after where
    p: "p = stem @ ext" and ext: "ext = CHR ''.'' # e" and
    e: "CHR ''.'' \<notin> set e" "CHR ''/'' \<notin> set e" and
    stem: "stem = before @ c # after" and c: "c \<noteq> CHR ''.''" "c \<noteq> CHR ''/''" and
    after: "CHR ''/'' \<notin> set after"
    unfolding stem_and_extension_def by blast
  define n where "n = length stem"
  define k where "k = length before"
  have kn: "k < n" by (simp add: k_def n_def stem)
  have dot: "rfind p CHR ''.'' = int n"
  proof (rule rfind_unique)
    show "n < length p" by (simp add: p ext n_def)
    show "p ! n = CHR ''.''" by (simp add: p ext n_def)
    show "CHR ''.'' \<notin> set (drop (Suc n) p)" using e by (simp add: p ext n_def)
  qed
  have "drop k p = c # after @ CHR ''.'' # e" by (simp add: p ext stem k_def)
  then have "CHR ''/'' \<notin> set (drop k p)" using c e after by simp
  then have sep: "rfind p CHR ''/'' < int k" by (rule rfind_less)
  have sep0: "0 \<le> rfind p CHR ''/'' + 1" using rfind_range [of p "CHR ''/''"] by simp
  have pk: "p ! k = c" by (simp add: p stem k_def)
  have "skip_leading_dots p (rfind p CHR ''/'' + 1) (int n)"
    unfolding skip_leading_dots_iff [OF sep0]
    using sep kn pk c by (intro exI [of _ k]) simp
  moreover have "rfind p CHR ''/'' < int n" using sep kn by simp
  ultimately have "splitext p = (take n p, drop n p)"
    by (simp add: splitext_def Let_def dot)
  then show ?thesis by (simp add: p n_def)
qed

lemma extension_of_splitext:
  assumes "splitext p \<noteq> (p, [])"
  shows "stem_and_extension p (fst (splitext p)) (snd (splitext p))"
proof -
  define d where "d = rfind p CHR ''.''"
  define s where "s = rfind p CHR ''/''"
  from assms have cond: "s < d" "skip_leading_dots p (s + 1) d"
    by (auto simp: splitext_def Let_def d_def s_def split: if_splits)
  then have split: "splitext p = (take (nat d) p, drop (nat d) p)"
    by (simp add: splitext_def Let_def d_def s_def)
  have s0: "- 1 \<le> s" using rfind_range [of p "CHR ''/''"] by (simp add: s_def)
  have d0: "0 \<le> d" using cond(1) s0 by simp
  have dlen: "nat d < length p" using rfind_range [of p "CHR ''.''"] d0 by (simp add: d_def)
  have pd: "p ! nat d = CHR ''.''" using rfind_nth [of p "CHR ''.''"] d0 by (simp add: d_def)
  have ext: "drop (nat d) p = CHR ''.'' # drop (Suc (nat d)) p"
    using dlen pd by (metis Cons_nth_drop_Suc)
  have nodot: "CHR ''.'' \<notin> set (drop (Suc (nat d)) p)"
    using rfind_last [of "CHR ''.''" p] d0 by (simp add: d_def nat_add_distrib)
  have noslash_from: "CHR ''/'' \<notin> set (drop (nat (s + 1)) p)"
    using rfind_last [of "CHR ''/''" p] by (simp add: s_def)
  have "nat (s + 1) \<le> Suc (nat d)" using cond(1) by simp
  then have "set (drop (Suc (nat d)) p) \<subseteq> set (drop (nat (s + 1)) p)"
    by (rule set_drop_subset_set_drop)
  with noslash_from have noslash: "CHR ''/'' \<notin> set (drop (Suc (nat d)) p)" by blast
  from cond(2) obtain j where j: "nat (s + 1) \<le> j" "int j < d" "p ! j \<noteq> CHR ''.''"
    using skip_leading_dots_iff [of "s + 1" p d] s0 by auto
  define stem where "stem = take (nat d) p"
  have jlen: "j < length stem" using j(2) dlen by (simp add: stem_def)
  have stem_split: "stem = take j stem @ stem ! j # drop (Suc j) stem"
    using jlen by (rule id_take_nth_drop)
  have stemj: "stem ! j = p ! j" using j(2) by (simp add: stem_def)
  have sub: "set (drop j stem) \<subseteq> set (drop (nat (s + 1)) p)"
  proof -
    have "set (drop j stem) \<subseteq> set (drop j p)"
      by (simp add: stem_def drop_take set_take_subset)
    moreover have "set (drop j p) \<subseteq> set (drop (nat (s + 1)) p)"
      using j(1) by (rule set_drop_subset_set_drop)
    ultimately show ?thesis by blast
  qed
  have "drop j stem = stem ! j # drop (Suc j) stem" using jlen by (metis Cons_nth_drop_Suc)
  with sub noslash_from have cj: "stem ! j \<noteq> CHR ''/''" "CHR ''/'' \<notin> set (drop (Suc j) stem)"
    by auto
  have "stem_and_extension p stem (drop (nat d) p)"
    unfolding stem_and_extension_def
  proof (intro conjI)
    show "p = stem @ drop (nat d) p" by (simp add: stem_def)
    show "\<exists>e. drop (nat d) p = CHR ''.'' # e \<and> CHR ''.'' \<notin> set e \<and> CHR ''/'' \<notin> set e"
      using ext nodot noslash by blast
    show "\<exists>before c after. stem = before @ c # after \<and> c \<noteq> CHR ''.'' \<and> c \<noteq> CHR ''/'' \<and>
        CHR ''/'' \<notin> set after"
      using stem_split cj j(3) stemj by metis
  qed
  then show ?thesis by (simp add: split stem_def)
qed

subsection \<open>Facts about the pipeline, and the definitions unfolded in concrete runs\<close>

lemmas sample_defs =
  sample_lib_def sample_open_def sample_new_def sample_convert_def sample_split_def
  sample_paste_def sample_resize_def sample_save_def sample_getsize_def dirname_def
  rfind_def sample_world_def emoji_def shade_def poster_def blend_def
  format_of_def encode_def splitext_def skip_leading_dots.simps lower_def lower_char_def

lemmas run_defs =
  main_def resize_image_def handler_def try_body_def report_def save_arguments_def
  normalize_mode_def paste_mask_def save_quality_def endswith_def print_def
  derive_output_path_def Let_def

lemma fs_print: "print L l w = Inr w' \<Longrightarrow> fs w' = fs w"
  by (auto simp: print_def split: option.splits)

lemma fs_report: "fs (snd (report L input_path output_path sz w)) = fs w"
  by (auto simp: report_def dest!: fs_print split: sum.splits)

lemma fs_handler: "fs (snd (handler L l w)) = fs w"
  by (auto simp: handler_def dest!: fs_print split: sum.splits)

lemma save_arguments_path_quality:
  "save_arguments L input_path output_path sz w = Inr (img_resized, path, quality) \<Longrightarrow>
     path = (case output_path of None \<Rightarrow> derive_output_path input_path | Some p \<Rightarrow> p) \<and>
     quality = save_quality path"
  by (auto simp: save_arguments_def Let_def split: sum.splits)

lemma fs_try_body:
  "fs (snd (try_body L input_path output_path sz w)) =
     (case save_arguments L input_path output_path sz w of
        Inl e \<Rightarrow> fs w
      | Inr (img_resized, path, quality) \<Rightarrow> snd (pil_save L (fs w) img_resized path quality))"
proof (cases "save_arguments L input_path output_path sz w")
  case (Inl e)
  then show ?thesis by (simp add: try_body_def)
next
  case (Inr args)
  obtain img_resized path quality where args: "args = (img_resized, path, quality)"
    by (cases args)
  show ?thesis
    by (cases "pil_save L (fs w) img_resized path quality")
      (auto simp: try_body_def Inr args fs_report split: sum.splits)
qed

lemma fs_resize_image:
  "fs (snd (resize_image L input_path output_path sz w)) =
     fs (snd (try_body L input_path output_path sz w))"
  by (cases "try_body L input_path output_path sz w")
    (auto simp: resize_image_def fs_handler split: sum.splits exn.splits)

lemma save_arguments_same_input:
  "pil_open L (fs w1) input_path = pil_open L (fs w2) input_path \<Longrightarrow>
     save_arguments L input_path output_path sz w1 = save_arguments L input_path output_path sz w2"
  by (simp add: save_arguments_def)

lemma save_arguments_returns_iff:
  "save_arguments L input_path output_path sz w = Inr (img_resized, path, quality) \<longleftrightarrow>
     (\<exists>img img'.
        pil_open L (fs w) input_path = Inr img \<and>
        normalize_mode L img = Inr img' \<and>
        pil_resize L img' sz LANCZOS = Inr img_resized) \<and>
     path = (case output_path of None \<Rightarrow> derive_output_path input_path | Some p \<Rightarrow> p) \<and>
     quality = save_quality path"
  by (auto simp: save_arguments_def Let_def split: sum.splits)

lemma normalize_mode_returns_iff:
  "normalize_mode L img = Inr img' \<longleftrightarrow>
     (if pil_mode L img \<in> set [''RGBA'', ''LA'', ''P''] then
        \<exists>background img1 m.
          pil_new L ''RGB'' (pil_size L img) (255, 255, 255) = Inr background \<and>
          (if pil_mode L img = ''P'' then pil_convert L img ''RGBA'' = Inr img1 else img1 = img) \<and>
          paste_mask L img1 = Inr m \<and>
          pil_paste L background img1 m = Inr img'
      else img' = img)"
  by (auto simp: normalize_mode_def split: sum.splits)

lemma report_returns_iff:
  "fst (report L input_path output_path sz w) = Inr () \<longleftrightarrow>
     unencodable L (Success_resized (fst sz) (snd sz)) = None \<and>
     unencodable L (Saved_as output_path) = None \<and>
     (\<exists>original_size new_size.
        os_getsize L (fs w) input_path = Inr original_size \<and>
        os_getsize L (fs w) output_path = Inr new_size \<and>
        unencodable L (Original_size original_size) = None \<and>
        unencodable L (New_size new_size) = None)"
  by (auto simp: report_def print_def split: sum.splits option.splits)

lemma try_body_returns_iff:
  "fst (try_body L input_path output_path sz w) = Inr () \<longleftrightarrow>
     (\<exists>img_resized path quality fs'.
        save_arguments L input_path output_path sz w = Inr (img_resized, path, quality) \<and>
        pil_save L (fs w) img_resized path quality = (Inr (), fs') \<and>
        fst (report L input_path path sz (w\<lparr>fs := fs'\<rparr>)) = Inr ())"
  by (auto simp: try_body_def split: sum.splits prod.splits)

lemma resize_image_status:
  "exit_status (fst (resize_image L input_path output_path sz w)) =
     (if fst (try_body L input_path output_path sz w) = Inr () then 0 else 1)"
  by (cases "try_body L input_path output_path sz w")
    (auto simp: resize_image_def handler_def split: sum.splits exn.splits)

lemma resize_image_returns_iff:
  "exit_status (fst (resize_image L input_path output_path sz w)) = 0 \<longleftrightarrow>
     (\<exists>img img' img_resized path fs' original_size new_size.
        pil_open L (fs w) input_path = Inr img \<and>
        normalize_mode L img = Inr img' \<and>
        pil_resize L img' sz LANCZOS = Inr img_resized \<and>
        path = (case output_path of None \<Rightarrow> derive_output_path input_path | Some p \<Rightarrow> p) \<and>
        pil_save L (fs w) img_resized path (save_quality path) = (Inr (), fs') \<and>
        unencodable L (Success_resized (fst sz) (snd sz)) = None \<and>
        unencodable L (Saved_as path) = None \<and>
        os_getsize L fs' input_path = Inr original_size \<and>
        os_getsize L fs' path = Inr new_size \<and>
        unencodable L (Original_size original_size) = None \<and>
        unencodable L (New_size new_size) = None)"
  unfolding resize_image_status try_body_returns_iff save_arguments_returns_iff
    report_returns_iff
  by (simp, blast)

lemma resize_image_Returned:
  "fst (resize_image L input_path output_path sz w) = Returned \<longleftrightarrow>
     fst (try_body L input_path output_path sz w) = Inr ()"
  by (cases "try_body L input_path output_path sz w")
    (auto simp: resize_image_def handler_def split: sum.splits exn.splits)

subsection \<open>What is resized and saved\<close>



subsection \<open>The derived output path\<close>

text \<open>
  Claim C3. For every input path: when the path is a stem followed by an extension, the
  derived path is the stem, then \<open>_512x512\<close>, then the extension, so the suffix stands
  between the two; when the path has no extension, the suffix is appended to the whole
  path; and a run with no output path is the run with the derived path given. The
  derivation is a function of the input path alone.
\<close>

theorem derived_output_path_inserts_suffix:
  "(stem_and_extension input_path stem ext \<longrightarrow>
      derive_output_path input_path = stem @ ''_512x512'' @ ext) \<and>
   ((\<forall>stem ext. \<not> stem_and_extension input_path stem ext) \<longrightarrow>
      derive_output_path input_path = input_path @ ''_512x512'') \<and>
   resize_image L input_path None sz w =
     resize_image L input_path (Some (derive_output_path input_path)) sz w"
proof (intro conjI impI)
  assume "stem_and_extension input_path stem ext"
  then have "splitext input_path = (stem, ext)" by (rule splitext_of_extension)
  then show "derive_output_path input_path = stem @ ''_512x512'' @ ext"
    by (simp add: derive_output_path_def)
next
  assume none: "\<forall>stem ext. \<not> stem_and_extension input_path stem ext"
  have "splitext input_path = (input_path, [])"
  proof (rule ccontr)
    assume "splitext input_path \<noteq> (input_path, [])"
    then have "stem_and_extension input_path (fst (splitext input_path)) (snd (splitext input_path))"
      by (rule extension_of_splitext)
    with none show False by blast
  qed
  then show "derive_output_path input_path = input_path @ ''_512x512''"
    by (simp add: derive_output_path_def)
next
  have "save_arguments L input_path None sz w =
      save_arguments L input_path (Some (derive_output_path input_path)) sz w"
    by (simp add: save_arguments_def Let_def split: sum.splits)
  then show "resize_image L input_path None sz w =
      resize_image L input_path (Some (derive_output_path input_path)) sz w"
    by (simp add: resize_image_def try_body_def)
qed

theorem derived_output_path_inserts_suffix_witness:
  "stem_and_extension ''photos/emoji.png'' ''photos/emoji'' ''.png'' \<and>
   derive_output_path ''photos/emoji.png'' = ''photos/emoji_512x512.png'' \<and>
   (\<forall>stem ext. \<not> stem_and_extension ''.bashrc'' stem ext) \<and>
   derive_output_path ''.bashrc'' = ''.bashrc_512x512''"
proof -
  have ext: "stem_and_extension ''photos/emoji.png'' ''photos/emoji'' ''.png''"
    unfolding stem_and_extension_def
  proof (intro conjI)
    show "''photos/emoji.png'' = ''photos/emoji'' @ ''.png''" by simp
    show "\<exists>e. ''.png'' = CHR ''.'' # e \<and> CHR ''.'' \<notin> set e \<and> CHR ''/'' \<notin> set e"
      by (intro exI [of _ "''png''"]) simp
    show "\<exists>before c after. ''photos/emoji'' = before @ c # after \<and> c \<noteq> CHR ''.'' \<and>
        c \<noteq> CHR ''/'' \<and> CHR ''/'' \<notin> set after"
      by (intro exI [of _ "''photos/emoj''"] exI [of _ "CHR ''i''"] exI [of _ "[]"]) simp
  qed
  have none: "\<forall>stem ext. \<not> stem_and_extension ''.bashrc'' stem ext"
  proof (intro allI notI)
    fix stem ext
    assume "stem_and_extension ''.bashrc'' stem ext"
    then have "splitext ''.bashrc'' = (stem, ext)" "ext \<noteq> []"
      by (auto simp: splitext_of_extension stem_and_extension_def)
    moreover have "splitext ''.bashrc'' = (''.bashrc'', [])"
      by (simp add: splitext_def rfind_def skip_leading_dots.simps)
    ultimately show False by simp
  qed
  from derived_output_path_inserts_suffix [of "''photos/emoji.png''" "''photos/emoji''" "''.png''" sample_lib "(512, 512)"
      sample_world] ext
  have "derive_output_path ''photos/emoji.png'' = ''photos/emoji_512x512.png''" by simp
  moreover from derived_output_path_inserts_suffix [of "''.bashrc''" "[]" "[]" sample_lib "(512, 512)" sample_world] none
  have "derive_output_path ''.bashrc'' = ''.bashrc_512x512''" by simp
  ultimately show ?thesis using ext none by blast
qed

subsection \<open>The quality argument\<close>



text \<open>
  Claim C5, evaluated at an output path with another extension. For \<open>out/e.jpe\<close> the
  call of \<open>save\<close> still carries the keyword, as \<open>quality=None\<close>; \<open>.jpe\<close> selects the JPEG
  encoder, which refuses a quality that is not an integer, and the run ends with the
  generic error and status 1.
\<close>

theorem quality_none_passed_for_jpe:
  "(\<exists>r. save_arguments sample_lib ''emoji.png'' (Some ''out/e.jpe'') (512, 512) sample_world =
          Inr (r, ''out/e.jpe'', None)) \<and>
   main sample_lib [''resize_image.py'', ''emoji.png'', ''out/e.jpe''] sample_world =
     (SysExit 1, sample_world\<lparr>stdout := [Error_resizing ''Invalid quality setting'']\<rparr>)"
  by (simp add: run_defs sample_defs)

subsection \<open>The mode normalization\<close>

text \<open>
  What the normalization asks of the library, for any library: an RGBA image is pasted
  on the white canvas with its last band as the mask, an LA image is pasted with no
  mask.
\<close>

lemma normalize_mode_RGBA:
  "pil_mode L img = ''RGBA'' \<Longrightarrow>
     normalize_mode L img =
       (case pil_new L ''RGB'' (pil_size L img) (255, 255, 255) of
          Inl e \<Rightarrow> Inl e
        | Inr background \<Rightarrow>
            (case pil_split L img of
               Inl e \<Rightarrow> Inl e
             | Inr bands \<Rightarrow>
                 if bands = [] then Inl (Exception ''tuple index out of range'')
                 else pil_paste L background img (Some (last bands))))"
  by (simp add: normalize_mode_def paste_mask_def split: sum.splits)

lemma normalize_mode_LA:
  "pil_mode L img = ''LA'' \<Longrightarrow>
     normalize_mode L img =
       (case pil_new L ''RGB'' (pil_size L img) (255, 255, 255) of
          Inl e \<Rightarrow> Inl e
        | Inr background \<Rightarrow> pil_paste L background img None)"
  by (simp add: normalize_mode_def paste_mask_def split: sum.splits)

text \<open>
  Claim C2, evaluated at a grayscale+alpha input. \<open>shade.png\<close> opens as the mode LA image
  \<open>shade\<close>, whose pixel at (0, 0) is black and fully transparent. The mask argument is
  the alpha band only when the mode is RGBA, so this image is pasted with no mask: the
  paste overwrites the white canvas and the pixel comes out black, not white.
\<close>

theorem normalize_mode_LA_ignores_alpha:
  "pil_open sample_lib (fs sample_world) ''shade.png'' = Inr shade \<and>
   pil_mode sample_lib shade = ''LA'' \<and> im_pixel shade 0 0 = [0, 0] \<and>
   (\<exists>flat. normalize_mode sample_lib shade = Inr flat \<and> im_pixel flat 0 0 = [0, 0, 0])"
  by (simp add: normalize_mode_def paste_mask_def sample_defs)

text \<open>
  Claim C7, as stated, fails: no step looks at the destination format. \<open>poster.jpg\<close>
  opens in mode CMYK, none of the three modes the normalization handles, so it reaches
  \<open>resize\<close> and \<open>save\<close> in mode CMYK; the destination \<open>out/poster.png\<close> selects the PNG
  encoder, which cannot write CMYK, and the run ends with the generic error.
\<close>

theorem cmyk_input_reaches_png_encoder:
  "pil_open sample_lib (fs sample_world) ''poster.jpg'' = Inr poster \<and>
   pil_mode sample_lib poster = ''CMYK'' \<and>
   normalize_mode sample_lib poster = Inr poster \<and>
   format_of ''out/poster.png'' = Some PNG \<and>
   ''CMYK'' \<notin> set (writable_modes PNG) \<and>
   main sample_lib [''resize_image.py'', ''poster.jpg'', ''out/poster.png''] sample_world =
     (SysExit 1, sample_world\<lparr>stdout := [Error_resizing ''cannot write mode CMYK as PNG'']\<rparr>)"
  by (simp add: run_defs sample_defs)

text \<open>
  Claim C7, amended. Under the library's contracts that \<open>Image.new\<close> returns an image of
  the mode asked for and that \<open>paste\<close> keeps the mode of its receiver: the image the
  normalization returns never has mode RGBA, LA or P; when the normalization runs (the
  input has one of these modes) its result has mode RGB; an input of any other mode is
  passed on unchanged; and this image is the one \<open>resize\<close> is called on, whatever the
  output path.
\<close>

theorem normalized_mode_is_opaque_truecolor:
  assumes new_mode: "\<forall>m s c b. pil_new L m s c = Inr b \<longrightarrow> pil_mode L b = m"
    and paste_mode: "\<forall>b i k r. pil_paste L b i k = Inr r \<longrightarrow> pil_mode L r = pil_mode L b"
    and opened: "pil_open L (fs w) input_path = Inr img"
    and normalized: "normalize_mode L img = Inr img'"
  shows "pil_mode L img' \<notin> set [''RGBA'', ''LA'', ''P''] \<and>
         (if pil_mode L img \<in> set [''RGBA'', ''LA'', ''P'']
          then pil_mode L img' = ''RGB'' else img' = img) \<and>
         (\<exists>path. save_arguments L input_path output_path sz w =
            (case pil_resize L img' sz LANCZOS of
               Inl e \<Rightarrow> Inl e
             | Inr img_resized \<Rightarrow> Inr (img_resized, path, save_quality path)))"
proof -
  have modes: "pil_mode L img' \<notin> set [''RGBA'', ''LA'', ''P''] \<and>
         (if pil_mode L img \<in> set [''RGBA'', ''LA'', ''P'']
          then pil_mode L img' = ''RGB'' else img' = img)"
  proof (cases "pil_mode L img \<in> set [''RGBA'', ''LA'', ''P'']")
    case False
    with normalized have "img' = img" by (simp add: normalize_mode_def)
    with False show ?thesis by simp
  next
    case True
    with normalized obtain background img1 k where
      canvas: "pil_new L ''RGB'' (pil_size L img) (255, 255, 255) = Inr background" and
      pasted: "pil_paste L background img1 k = Inr img'"
      by (auto simp: normalize_mode_def split: sum.splits)
    have "pil_mode L background = ''RGB''" using new_mode canvas by blast
    moreover have "pil_mode L img' = pil_mode L background" using paste_mode pasted by blast
    ultimately have "pil_mode L img' = ''RGB''" by simp
    with True show ?thesis by simp
  qed
  have "save_arguments L input_path output_path sz w =
      (case pil_resize L img' sz LANCZOS of
         Inl e \<Rightarrow> Inl e
       | Inr img_resized \<Rightarrow>
           Inr (img_resized,
                case output_path of None \<Rightarrow> derive_output_path input_path | Some p \<Rightarrow> p,
                save_quality
                  (case output_path of None \<Rightarrow> derive_output_path input_path | Some p \<Rightarrow> p)))"
    using opened normalized by (simp add: save_arguments_def Let_def split: sum.splits)
  then show ?thesis using modes by blast
qed

theorem normalized_mode_is_opaque_truecolor_witness:
  "\<exists>flat. normalize_mode sample_lib emoji = Inr flat \<and> pil_mode sample_lib flat = ''RGB''"
proof -
  have new_mode: "\<forall>m s c b. pil_new sample_lib m s c = Inr b \<longrightarrow> pil_mode sample_lib b = m"
    by (auto simp: sample_lib_def sample_new_def split: prod.splits)
  have paste_mode:
    "\<forall>b i k r. pil_paste sample_lib b i k = Inr r \<longrightarrow> pil_mode sample_lib r = pil_mode sample_lib b"
    by (auto simp: sample_lib_def sample_paste_def split: if_splits)
  have opened: "pil_open sample_lib (fs sample_world) ''emoji.png'' = Inr emoji"
    by (simp add: sample_defs)
  obtain flat where normalized: "normalize_mode sample_lib emoji = Inr flat"
    by (simp add: normalize_mode_def paste_mask_def sample_defs)
  have "pil_mode sample_lib emoji \<in> set [''RGBA'', ''LA'', ''P'']"
    by (simp add: sample_lib_def emoji_def)
  with normalized_mode_is_opaque_truecolor [OF new_mode paste_mode opened normalized] normalized show ?thesis by auto
qed

subsection \<open>Exit status and error reports\<close>

lemma not_found_when_open_fails:
  "pil_open L (fs w) input_path = Inl FileNotFoundError \<Longrightarrow>
     resize_image L input_path output_path sz w = handler L (Error_not_found input_path) w"
  by (simp add: resize_image_def try_body_def save_arguments_def)

lemma not_found_when_save_fails:
  "save_arguments L input_path output_path sz w = Inr (img_resized, path, quality) \<Longrightarrow>
   pil_save L (fs w) img_resized path quality = (Inl FileNotFoundError, fs') \<Longrightarrow>
     resize_image L input_path output_path sz w =
       handler L (Error_not_found input_path) (w\<lparr>fs := fs'\<rparr>)"
  by (simp add: resize_image_def try_body_def)

text \<open>
  Claim C4, evaluated at an existing input and an output path in a missing directory.
  \<open>emoji.png\<close> opens, \<open>save\<close> raises \<open>FileNotFoundError\<close> for \<open>missing/out.png\<close>, and the
  handler for \<open>FileNotFoundError\<close> reports the input path \<open>emoji.png\<close> as not found.
\<close>

theorem not_found_reported_for_missing_output_directory:
  "pil_open sample_lib (fs sample_world) ''emoji.png'' = Inr emoji \<and>
   main sample_lib [''resize_image.py'', ''emoji.png'', ''missing/out.png''] sample_world =
     (SysExit 1, sample_world\<lparr>stdout := [Error_not_found ''emoji.png'']\<rparr>)"
  by (simp add: run_defs sample_defs)

text \<open>
  Claim C6. The exit status of \<open>main\<close> is 0 exactly when an input path is given and every
  step of the pipeline returns: the input opens, the normalization and the resize
  return, \<open>save\<close> returns, both sizes are read from the file system \<open>save\<close> left, and the
  four report lines can be printed. In every other case (no argument, an
  exception of any kind in any step, also one raised while printing) it is 1.
\<close>

theorem exit_status_zero_iff_success:
  "(exit_status (fst (main L argv w)) = 0 \<longleftrightarrow>
      2 \<le> length argv \<and>
      (\<exists>img img' img_resized path fs' original_size new_size.
         pil_open L (fs w) (argv ! 1) = Inr img \<and>
         normalize_mode L img = Inr img' \<and>
         pil_resize L img' (512, 512) LANCZOS = Inr img_resized \<and>
         path = (if length argv > 2 then argv ! 2 else derive_output_path (argv ! 1)) \<and>
         pil_save L (fs w) img_resized path (save_quality path) = (Inr (), fs') \<and>
         unencodable L (Success_resized 512 512) = None \<and>
         unencodable L (Saved_as path) = None \<and>
         os_getsize L fs' (argv ! 1) = Inr original_size \<and>
         os_getsize L fs' path = Inr new_size \<and>
         unencodable L (Original_size original_size) = None \<and>
         unencodable L (New_size new_size) = None)) \<and>
   (exit_status (fst (main L argv w)) = 0 \<or> exit_status (fst (main L argv w)) = 1)"
proof (cases "length argv < 2")
  case True
  then have "exit_status (fst (main L argv w)) = 1"
    by (simp add: main_def usage_def print_def)
  with True show ?thesis by simp
next
  case False
  then have m: "main L argv w =
      resize_image L (argv ! 1) (if length argv > 2 then Some (argv ! 2) else None) (512, 512) w"
    by (simp add: main_def)
  have two: "exit_status (fst (main L argv w)) = 0 \<or> exit_status (fst (main L argv w)) = 1"
    unfolding m by (simp add: resize_image_status)
  have "exit_status (fst (main L argv w)) = 0 \<longleftrightarrow>
      (\<exists>img img' img_resized path fs' original_size new_size.
         pil_open L (fs w) (argv ! 1) = Inr img \<and>
         normalize_mode L img = Inr img' \<and>
         pil_resize L img' (512, 512) LANCZOS = Inr img_resized \<and>
         path = (if length argv > 2 then argv ! 2 else derive_output_path (argv ! 1)) \<and>
         pil_save L (fs w) img_resized path (save_quality path) = (Inr (), fs') \<and>
         unencodable L (Success_resized 512 512) = None \<and>
         unencodable L (Saved_as path) = None \<and>
         os_getsize L fs' (argv ! 1) = Inr original_size \<and>
         os_getsize L fs' path = Inr new_size \<and>
         unencodable L (Original_size original_size) = None \<and>
         unencodable L (New_size new_size) = None)"
    unfolding m resize_image_returns_iff by (cases "length argv > 2") simp_all
  with False two show ?thesis by simp
qed

theorem exit_status_zero_iff_success_witness:
  "exit_status (fst (main sample_lib [''resize_image.py'', ''emoji.png''] sample_world)) = 0 \<and>
   exit_status (fst (main sample_lib [''resize_image.py'', ''nope.png''] sample_world)) = 1 \<and>
   exit_status (fst (main ascii_stdout_lib [''resize_image.py'', ''emoji.png''] sample_world)) = 1"
proof -
  have ok: "exit_status (fst (main sample_lib [''resize_image.py'', ''emoji.png''] sample_world)) = 0"
    by (simp add: run_defs sample_defs)
  have "pil_open sample_lib (fs sample_world) ''nope.png'' = Inl FileNotFoundError"
    by (simp add: sample_defs)
  then have missing:
    "exit_status (fst (main sample_lib [''resize_image.py'', ''nope.png''] sample_world)) = 1"
    using exit_status_zero_iff_success [of sample_lib "[''resize_image.py'', ''nope.png'']" sample_world] by auto
  have "unencodable ascii_stdout_lib (Success_resized 512 512) \<noteq> None"
    by (simp add: ascii_stdout_lib_def)
  then have ascii:
    "exit_status (fst (main ascii_stdout_lib [''resize_image.py'', ''emoji.png''] sample_world)) = 1"
    using exit_status_zero_iff_success [of ascii_stdout_lib "[''resize_image.py'', ''emoji.png'']" sample_world] by auto
  from ok missing ascii show ?thesis by simp
qed

text \<open>
  With a standard output that cannot encode the report lines, the output file is
  written, the first \<open>print\<close> of the report raises, the handler's \<open>print\<close> raises again,
  and the exception leaves \<open>main\<close>.
\<close>

lemma unencodable_report_raises_after_save:
  "\<exists>w'. main ascii_stdout_lib [''resize_image.py'', ''emoji.png''] sample_world =
     (Raised (Exception ''codec cannot encode character''), w') \<and> stdout w' = [] \<and>
     (\<exists>im. map_of (fs w') ''emoji_512x512.png'' = Some (File im))"
  by (simp add: run_defs sample_defs ascii_stdout_lib_def)

text \<open>
  Claim C9. With the program name as the only element of \<open>argv\<close>, \<open>main\<close> prints the
  usage line and two example lines, exits with status 1, and leaves the file system as
  it was; the result is the same for every library, so no library operation (no read,
  no write) takes part in it.
\<close>

theorem main_without_arguments_prints_usage:
  "main L [program] w =
     (SysExit 1,
      w\<lparr>stdout := stdout w @
         [Text ''Usage: python resize_image.py <input_image> [output_image]'',
          Text ''Example: python resize_image.py emoji.png'',
          Text ''         python resize_image.py emoji.png emoji_resized.png'']\<rparr>) \<and>
   exit_status (fst (main L [program] w)) = 1 \<and>
   fs (snd (main L [program] w)) = fs w"
  by (simp add: main_def usage_def print_def)

subsection \<open>Running twice\<close>

lemma sample_save_out_png:
  "sample_save fsys im ''out/e.png'' quality =
     (case map_of fsys ''out'' of
        Some Directory \<Rightarrow>
          if im_mode im \<in> set (writable_modes PNG)
          then (Inr (), (''out/e.png'', File im) # fsys)
          else (Inl (Exception (''cannot write mode '' @ im_mode im @ '' as PNG'')), fsys)
      | Some (File other) \<Rightarrow> (Inl (Exception ''Not a directory''), fsys)
      | None \<Rightarrow> (Inl FileNotFoundError, fsys))"
  by (simp add: sample_save_def encode_def format_of_def dirname_def rfind_def splitext_def
      skip_leading_dots.simps lower_def lower_char_def split: option.splits entry.splits)

lemma sample_save_out_png_Inr:
  assumes "sample_save fsys im ''out/e.png'' quality = (Inr (), fs1)"
  shows "map_of fsys ''out'' = Some Directory \<and> im_mode im \<in> set (writable_modes PNG) \<and>
         fs1 = (''out/e.png'', File im) # fsys"
  using assms unfolding sample_save_out_png
  by (auto split: option.splits entry.splits if_splits)

text \<open>
  Claim C8. Two library contracts are assumed for the output path: saving to it leaves
  what the input path opens to unchanged (the input file is the same in both runs), and
  saving an image over the file a save of the same image has just written returns
  again and leaves a file that opens to the same image (\<open>save\<close> overwrites, and the
  decoded pixels do not depend on the run). Then, when a first run with an explicit
  output path returns and a second run starts from the world it left: both runs call
  \<open>save\<close> with the same image, path and quality, both calls return, so both runs write
  the output, and the output file opens to the same image (size, mode and pixels) after
  the second run as after the first.
\<close>

theorem second_run_saves_same_image:
  assumes frame:
    "\<forall>im quality. pil_open L (snd (pil_save L (fs w) im output_path quality)) input_path =
       pil_open L (fs w) input_path"
    and overwrite:
    "\<forall>fsys im quality fs1. pil_save L fsys im output_path quality = (Inr (), fs1) \<longrightarrow>
       (\<exists>fs2. pil_save L fs1 im output_path quality = (Inr (), fs2) \<and>
              pil_open L fs2 output_path = pil_open L fs1 output_path)"
    and first: "resize_image L input_path (Some output_path) sz w = (Returned, w1)"
    and second: "resize_image L input_path (Some output_path) sz w1 = (outcome2, w2)"
  shows "\<exists>img_resized quality.
           save_arguments L input_path (Some output_path) sz w =
             Inr (img_resized, output_path, quality) \<and>
           pil_save L (fs w) img_resized output_path quality = (Inr (), fs w1) \<and>
           save_arguments L input_path (Some output_path) sz w1 =
             Inr (img_resized, output_path, quality) \<and>
           pil_save L (fs w1) img_resized output_path quality = (Inr (), fs w2) \<and>
           pil_open L (fs w2) output_path = pil_open L (fs w1) output_path"
proof -
  from first have "fst (try_body L input_path (Some output_path) sz w) = Inr ()"
    using resize_image_Returned [of L input_path "Some output_path" sz w] by simp
  then obtain img_resized path quality fs' where
    args: "save_arguments L input_path (Some output_path) sz w = Inr (img_resized, path, quality)"
    and saved: "pil_save L (fs w) img_resized path quality = (Inr (), fs')"
    unfolding try_body_returns_iff by blast
  have path: "path = output_path" using save_arguments_path_quality [OF args] by simp
  have "fs w1 = fs (snd (resize_image L input_path (Some output_path) sz w))"
    using first by simp
  then have fs1: "fs w1 = fs'" by (simp add: fs_resize_image fs_try_body args saved)
  have "pil_open L (fs w1) input_path = pil_open L (fs w) input_path"
    using frame saved fs1 path by (metis snd_conv)
  then have args1: "save_arguments L input_path (Some output_path) sz w1 =
      Inr (img_resized, output_path, quality)"
    using save_arguments_same_input [of L w1 input_path w "Some output_path" sz] args path
    by simp
  from overwrite saved path fs1 obtain fs2 where
    again: "pil_save L (fs w1) img_resized output_path quality = (Inr (), fs2)" and
    same: "pil_open L fs2 output_path = pil_open L (fs w1) output_path"
    by blast
  have "fs w2 = fs (snd (resize_image L input_path (Some output_path) sz w1))"
    using second by simp
  then have fs2: "fs w2 = fs2" by (simp add: fs_resize_image fs_try_body args1 again)
  from args saved path fs1 args1 again fs2 same show ?thesis by auto
qed

theorem second_run_saves_same_image_witness:
  "\<exists>w1 outcome2 w2 im.
     resize_image sample_lib ''emoji.png'' (Some ''out/e.png'') (512, 512) sample_world =
       (Returned, w1) \<and>
     resize_image sample_lib ''emoji.png'' (Some ''out/e.png'') (512, 512) w1 = (outcome2, w2) \<and>
     pil_open sample_lib (fs w1) ''out/e.png'' = Inr im \<and>
     pil_open sample_lib (fs w2) ''out/e.png'' = Inr im"
proof -
  have frame: "\<forall>im quality.
      pil_open sample_lib (snd (pil_save sample_lib (fs sample_world) im ''out/e.png'' quality))
        ''emoji.png'' =
      pil_open sample_lib (fs sample_world) ''emoji.png''"
    by (simp add: sample_defs)
  have overwrite: "\<forall>fsys im quality fs1.
      pil_save sample_lib fsys im ''out/e.png'' quality = (Inr (), fs1) \<longrightarrow>
      (\<exists>fs2. pil_save sample_lib fs1 im ''out/e.png'' quality = (Inr (), fs2) \<and>
             pil_open sample_lib fs2 ''out/e.png'' = pil_open sample_lib fs1 ''out/e.png'')"
  proof (intro allI impI)
    fix fsys im quality fs1
    assume "pil_save sample_lib fsys im ''out/e.png'' quality = (Inr (), fs1)"
    then have "sample_save fsys im ''out/e.png'' quality = (Inr (), fs1)"
      by (simp add: sample_lib_def)
    from sample_save_out_png_Inr [OF this]
    have dir: "map_of fsys ''out'' = Some Directory"
      and mode: "im_mode im \<in> set (writable_modes PNG)"
      and fs1: "fs1 = (''out/e.png'', File im) # fsys" by simp_all
    have "sample_save fs1 im ''out/e.png'' quality = (Inr (), (''out/e.png'', File im) # fs1)"
      unfolding sample_save_out_png using dir mode by (simp add: fs1)
    moreover have "sample_open ((''out/e.png'', File im) # fs1) ''out/e.png'' =
        sample_open fs1 ''out/e.png''"
      by (simp add: sample_open_def fs1)
    ultimately show "\<exists>fs2. pil_save sample_lib fs1 im ''out/e.png'' quality = (Inr (), fs2) \<and>
        pil_open sample_lib fs2 ''out/e.png'' = pil_open sample_lib fs1 ''out/e.png''"
      by (simp add: sample_lib_def)
  qed
  obtain w1 where first:
    "resize_image sample_lib ''emoji.png'' (Some ''out/e.png'') (512, 512) sample_world =
       (Returned, w1)"
    by (simp add: run_defs sample_defs)
  obtain outcome2 w2 where second:
    "resize_image sample_lib ''emoji.png'' (Some ''out/e.png'') (512, 512) w1 = (outcome2, w2)"
    by (cases "resize_image sample_lib ''emoji.png'' (Some ''out/e.png'') (512, 512) w1")
  from second_run_saves_same_image [OF frame overwrite first second] obtain img_resized quality where
    saved1: "pil_save sample_lib (fs sample_world) img_resized ''out/e.png'' quality =
      (Inr (), fs w1)" and
    same: "pil_open sample_lib (fs w2) ''out/e.png'' = pil_open sample_lib (fs w1) ''out/e.png''"
    by blast
  from saved1 have "sample_save (fs sample_world) img_resized ''out/e.png'' quality =
      (Inr (), fs w1)"
    by (simp add: sample_lib_def)
  from sample_save_out_png_Inr [OF this]
  have "pil_open sample_lib (fs w1) ''out/e.png'' = Inr img_resized"
    by (simp add: sample_lib_def sample_open_def)
  with same first second show ?thesis by auto
qed

end
